theory Spec2Isabelle
  imports Complex_Main
begin

section \<open>Floating-point cells\<close>

text \<open>
  The price columns of the data frames hold IEEE doubles. A cell is modelled as a finite
  real, one of the two infinities, or the missing value NaN. Arithmetic on finite cells is
  exact (rounding, overflow and the sign of zero are not modelled); the non-finite cases
  follow the IEEE rules that pandas inherits from numpy: a finite non-zero number divided
  by zero is an infinity, zero divided by zero is NaN, and every comparison with NaN is
  false.
\<close>

datatype fl = Fin real | PInf | NInf | NaN

fun fdiv :: "fl \<Rightarrow> fl \<Rightarrow> fl" where
  "fdiv NaN _ = NaN"
| "fdiv _ NaN = NaN"
| "fdiv (Fin x) (Fin y) =
     (if y = 0 then (if x = 0 then NaN else if 0 < x then PInf else NInf) else Fin (x / y))"
| "fdiv (Fin x) PInf = Fin 0"
| "fdiv (Fin x) NInf = Fin 0"
| "fdiv PInf (Fin y) = (if y < 0 then NInf else PInf)"
| "fdiv NInf (Fin y) = (if y < 0 then PInf else NInf)"
| "fdiv PInf PInf = NaN"
| "fdiv PInf NInf = NaN"
| "fdiv NInf PInf = NaN"
| "fdiv NInf NInf = NaN"

fun fsub :: "fl \<Rightarrow> fl \<Rightarrow> fl" where
  "fsub NaN _ = NaN"
| "fsub _ NaN = NaN"
| "fsub (Fin x) (Fin y) = Fin (x - y)"
| "fsub (Fin x) PInf = NInf"
| "fsub (Fin x) NInf = PInf"
| "fsub PInf (Fin y) = PInf"
| "fsub NInf (Fin y) = NInf"
| "fsub PInf PInf = NaN"
| "fsub PInf NInf = PInf"
| "fsub NInf PInf = NInf"
| "fsub NInf NInf = NaN"

fun fmul :: "fl \<Rightarrow> fl \<Rightarrow> fl" where
  "fmul NaN _ = NaN"
| "fmul _ NaN = NaN"
| "fmul (Fin x) (Fin y) = Fin (x * y)"
| "fmul (Fin x) PInf = (if x = 0 then NaN else if 0 < x then PInf else NInf)"
| "fmul (Fin x) NInf = (if x = 0 then NaN else if 0 < x then NInf else PInf)"
| "fmul PInf (Fin y) = (if y = 0 then NaN else if 0 < y then PInf else NInf)"
| "fmul NInf (Fin y) = (if y = 0 then NaN else if 0 < y then NInf else PInf)"
| "fmul PInf PInf = PInf"
| "fmul PInf NInf = NInf"
| "fmul NInf PInf = NInf"
| "fmul NInf NInf = PInf"

fun fneg :: "fl \<Rightarrow> fl" where
  "fneg (Fin x) = Fin (- x)"
| "fneg PInf = NInf"
| "fneg NInf = PInf"
| "fneg NaN = NaN"

text \<open>\<open>fless a b\<close> is the comparison \<open>a < b\<close>; \<open>a > b\<close> is \<open>fless b a\<close>.\<close>

fun fless :: "fl \<Rightarrow> fl \<Rightarrow> bool" where
  "fless NaN _ = False"
| "fless _ NaN = False"
| "fless (Fin x) (Fin y) = (x < y)"
| "fless (Fin x) PInf = True"
| "fless (Fin x) NInf = False"
| "fless PInf _ = False"
| "fless NInf (Fin y) = True"
| "fless NInf PInf = True"
| "fless NInf NInf = False"

section \<open>Series operations of pandas used by the scripts\<close>

text \<open>
  \<open>Series.shift(1)\<close> moves every value one row down and puts NaN in the first row;
  \<open>Series.shift(-1)\<close> moves every value one row up and puts NaN in the last row.
\<close>

definition shift_down :: "fl list \<Rightarrow> fl list" where
  "shift_down xs = (if xs = [] then [] else NaN # butlast xs)"

definition shift_up :: "fl list \<Rightarrow> fl list" where
  "shift_up xs = (if xs = [] then [] else tl xs @ [NaN])"

text \<open>
  \<open>Series.pct_change()\<close> with its defaults first fills every missing value with the last
  value before it (\<open>fill_method='pad'\<close>) and then returns \<open>data / data.shift(1) - 1\<close>.
\<close>

fun ffill_from :: "fl \<Rightarrow> fl list \<Rightarrow> fl list" where
  "ffill_from p [] = []"
| "ffill_from p (x # xs) = (if x = NaN then p # ffill_from p xs else x # ffill_from x xs)"

definition ffill :: "fl list \<Rightarrow> fl list" where
  "ffill xs = ffill_from NaN xs"

definition pct_change :: "fl list \<Rightarrow> fl list" where
  "pct_change xs =
     (let data = ffill xs
      in map (\<lambda>(a, b). fsub (fdiv a b) (Fin 1)) (zip data (shift_down data)))"

section \<open>Dataset construction (dataset\_construction.py)\<close>

text \<open>
  Each function of the construction script copies the frame, reads one column and writes
  one column; the model of a function is the map from the column it reads to the column
  it writes. Labels are the integers of the \<open>Anomaly\<close> column: 0 stable, 1 upward,
  2 downward. The frame comes from \<open>read_csv\<close>, so its index is \<open>0, 1, ..., n - 1\<close> and
  an index label is a row position.
\<close>

definition calculate_price_variation :: "fl list \<Rightarrow> fl list" where
  "calculate_price_variation close = map (\<lambda>v. fmul v (Fin 100)) (pct_change close)"

text \<open>\<open>df.loc[mask, 'Anomaly'] = v\<close>: the rows where the mask holds receive \<open>v\<close>.\<close>

definition loc_mask_assign :: "int list \<Rightarrow> bool list \<Rightarrow> int \<Rightarrow> int list" where
  "loc_mask_assign col msk v = map (\<lambda>(x, m). if m then v else x) (zip col msk)"

definition label_anomalies :: "fl list \<Rightarrow> fl \<Rightarrow> int list" where
  "label_anomalies price_variation threshold =
     (let anomaly = replicate (length price_variation) 0;
          upward_anomalies = map (\<lambda>v. fless threshold v) (shift_up price_variation);
          anomaly = loc_mask_assign anomaly upward_anomalies 1;
          downward_anomalies = map (\<lambda>v. fless v (fneg threshold)) (shift_up price_variation);
          anomaly = loc_mask_assign anomaly downward_anomalies 2
      in anomaly)"

text \<open>
  \<open>df.loc[start:stop, 'Anomaly'] = v\<close> on the range index: a label slice, closed at both
  ends; it is empty when \<open>start > stop\<close>, and labels beyond the last row select nothing.
\<close>

definition loc_slice_assign :: "int list \<Rightarrow> int \<Rightarrow> int \<Rightarrow> int \<Rightarrow> int list" where
  "loc_slice_assign col start stop v =
     map (\<lambda>k. if start \<le> int k \<and> int k \<le> stop then v else col ! k) [0..<length col]"

definition anomaly_indices :: "int list \<Rightarrow> nat list" where
  "anomaly_indices col = filter (\<lambda>i. 0 < col ! i) [0..<length col]"

text \<open>One iteration of the loop of \<open>apply_curve_shifting\<close>, on the current column.\<close>

definition shift_step :: "int \<Rightarrow> int list \<Rightarrow> nat \<Rightarrow> int list" where
  "shift_step shift_hours col idx =
     (let anomaly_label = col ! idx;
          start_idx = max 0 (int idx - shift_hours)
      in loc_slice_assign col start_idx (int idx) anomaly_label)"

definition apply_curve_shifting :: "int list \<Rightarrow> int \<Rightarrow> int list" where
  "apply_curve_shifting col shift_hours =
     foldl (shift_step shift_hours) col (anomaly_indices col)"

text \<open>
  One iteration of the loop of \<open>handle_interleaved_anomalies\<close>. The series
  \<open>anomaly_series\<close> the loop reads is \<open>df['Anomaly']\<close>, a view of the column that
  \<open>df.at\<close> writes (pandas without copy-on-write), so every comparison sees the writes
  of the iterations before it. The indices run from 1 to \<open>n - 1\<close>, always in range.
\<close>

definition resolve_step :: "int list \<Rightarrow> nat \<Rightarrow> int list" where
  "resolve_step col i =
     (if col ! i \<noteq> 0 \<and> col ! (i - 1) \<noteq> 0
      then (if col ! i \<noteq> col ! (i - 1) then (col[i := 0])[i - 1 := 0] else col)
      else col)"

definition handle_interleaved_anomalies :: "int list \<Rightarrow> int list" where
  "handle_interleaved_anomalies col = foldl resolve_step col [1..<length col]"

text \<open>The labelling steps of \<open>process_file\<close>, from the close prices to the final labels.\<close>

definition label_pipeline :: "fl list \<Rightarrow> fl \<Rightarrow> int \<Rightarrow> int list" where
  "label_pipeline close threshold shift_hours =
     handle_interleaved_anomalies
       (apply_curve_shifting
          (label_anomalies (calculate_price_variation close) threshold) shift_hours)"

text \<open>Two adjacent rows are in conflict when both are non-stable and their labels differ.\<close>

definition conflict :: "int list \<Rightarrow> nat \<Rightarrow> bool" where
  "conflict col i = (col ! i \<noteq> 0 \<and> col ! (i - 1) \<noteq> 0 \<and> col ! i \<noteq> col ! (i - 1))"

section \<open>Data frames and files\<close>

text \<open>
  A data frame is the list of its columns in order, each with its name; a column holds
  integers, floats or text, as the dtypes of pandas do. The missing value of a float
  column is NaN, that of a text column is \<open>None\<close>; an integer column has none.
\<close>

datatype column = IntCol "int list" | FloatCol "fl list" | StrCol "string option list"

type_synonym table = "(string \<times> column) list"

datatype error = ReadError | KeyError | TypeError | ValueError | UnboundLocalError

definition columns :: "table \<Rightarrow> string list" where
  "columns df = map fst df"

text \<open>\<open>df[name]\<close>.\<close>

definition get_column :: "table \<Rightarrow> string \<Rightarrow> column option" where
  "get_column df name = map_of df name"

text \<open>\<open>df[name] = col\<close>: an existing column is replaced in place, a new one is put last.\<close>

fun set_column :: "table \<Rightarrow> string \<Rightarrow> column \<Rightarrow> table" where
  "set_column [] name col = [(name, col)]"
| "set_column ((m, d) # df) name col =
     (if m = name then (name, col) # df else (m, d) # set_column df name col)"

text \<open>The numbers of a column; arithmetic on a text column raises \<open>TypeError\<close>.\<close>

fun as_float :: "column \<Rightarrow> error + fl list" where
  "as_float (IntCol xs) = Inr (map (\<lambda>i. Fin (real_of_int i)) xs)"
| "as_float (FloatCol xs) = Inr xs"
| "as_float (StrCol xs) = Inl TypeError"

fun isna :: "column \<Rightarrow> bool list" where
  "isna (IntCol xs) = map (\<lambda>_. False) xs"
| "isna (FloatCol xs) = map (\<lambda>x. x = NaN) xs"
| "isna (StrCol xs) = map (\<lambda>x. x = None) xs"

definition select :: "bool list \<Rightarrow> 'a list \<Rightarrow> 'a list" where
  "select keep xs = map fst (filter snd (zip xs keep))"

fun select_rows :: "bool list \<Rightarrow> column \<Rightarrow> column" where
  "select_rows keep (IntCol xs) = IntCol (select keep xs)"
| "select_rows keep (FloatCol xs) = FloatCol (select keep xs)"
| "select_rows keep (StrCol xs) = StrCol (select keep xs)"

definition row_count :: "table \<Rightarrow> nat" where
  "row_count df = (case df of [] \<Rightarrow> 0 | (n, c) # _ \<Rightarrow> length (isna c))"

text \<open>\<open>df.dropna()\<close>: the rows with a missing value in any column are removed.\<close>

definition complete_rows :: "table \<Rightarrow> bool list" where
  "complete_rows df =
     map (\<lambda>i. list_all (\<lambda>(n, c). \<not> isna c ! i) df) [0..<row_count df]"

definition dropna :: "table \<Rightarrow> table" where
  "dropna df = map (\<lambda>(n, c). (n, select_rows (complete_rows df) c)) df"

text \<open>
  A file of the input folder: its path, and the frame \<open>read_csv\<close> returns for it
  (\<open>None\<close> when \<open>read_csv\<close> raises). The files a stage writes are listed in the order of
  the writes, each with its path and the frame written; the output folder is taken to
  exist and to be writable.
\<close>

record csv_file =
  file_path :: string
  content :: "table option"

type_synonym written = "(string \<times> table) list"

definition basename :: "string \<Rightarrow> string" where
  "basename p = rev (takeWhile (\<lambda>c. c \<noteq> CHR ''/'') (rev p))"

definition path_join :: "string \<Rightarrow> string \<Rightarrow> string" where
  "path_join folder name =
     (if folder = [] \<or> last folder = CHR ''/'' then folder @ name
      else folder @ ''/'' @ name)"

fun contains :: "string \<Rightarrow> string \<Rightarrow> bool" where
  "contains sub [] = (sub = [])"
| "contains sub (c # cs) = (take (length sub) (c # cs) = sub \<or> contains sub cs)"

definition has_time_column :: "table \<Rightarrow> bool" where
  "has_time_column df = (''Datetime'' \<in> set (columns df) \<or> ''Date'' \<in> set (columns df))"

section \<open>The construction stage on files (dataset\_construction.py)\<close>

text \<open>
  \<open>process_file\<close> of the construction script: any exception (an unreadable file, no
  \<open>Close\<close> column, a \<open>Close\<close> column of text) is caught and gives \<open>None\<close>. The script
  never looks at the time columns.
\<close>

definition process_file_construction :: "csv_file \<Rightarrow> fl \<Rightarrow> int \<Rightarrow> table option" where
  "process_file_construction f threshold shift_hours =
     (case content f of
        None \<Rightarrow> None
      | Some df \<Rightarrow>
          (case get_column df ''Close'' of
             None \<Rightarrow> None
           | Some c \<Rightarrow>
               (case as_float c of
                  Inl e \<Rightarrow> None
                | Inr close \<Rightarrow>
                    (let pv = calculate_price_variation close;
                         df = set_column df ''Price_Variation'' (FloatCol pv);
                         a = label_anomalies pv threshold;
                         df = set_column df ''Anomaly'' (IntCol a);
                         a = apply_curve_shifting a shift_hours;
                         df = set_column df ''Anomaly'' (IntCol a);
                         a = handle_interleaved_anomalies a;
                         df = set_column df ''Anomaly'' (IntCol a)
                     in Some df))))"

text \<open>The loop of \<open>main\<close>: a processed frame is written under the name of its file.\<close>

fun main_construction :: "csv_file list \<Rightarrow> string \<Rightarrow> fl \<Rightarrow> int \<Rightarrow> written" where
  "main_construction [] output_folder threshold shift_hours = []"
| "main_construction (f # fs) output_folder threshold shift_hours =
     (case process_file_construction f threshold shift_hours of
        Some df_processed \<Rightarrow>
          (path_join output_folder (basename (file_path f)), df_processed)
            # main_construction fs output_folder threshold shift_hours
      | None \<Rightarrow> main_construction fs output_folder threshold shift_hours)"

section \<open>The indicator stage on files (integrate\_indicators.py)\<close>

text \<open>
  The indicators come from the library \<open>pandas_ta\<close>; the branch that computes them on a
  frame with a time column is the parameter \<open>indicators\<close>, which receives the name of the
  time column. A frame with neither time column is returned as it is.
\<close>

definition integrate_technical_indicators ::
  "(string \<Rightarrow> table \<Rightarrow> error + table) \<Rightarrow> table \<Rightarrow> error + table" where
  "integrate_technical_indicators indicators df =
     (if ''Datetime'' \<in> set (columns df) then indicators ''Datetime'' df
      else if ''Date'' \<in> set (columns df) then indicators ''Date'' df
      else Inr df)"

definition process_file_indicators ::
  "(string \<Rightarrow> table \<Rightarrow> error + table) \<Rightarrow> csv_file \<Rightarrow> table option" where
  "process_file_indicators indicators f =
     (case content f of
        None \<Rightarrow> None
      | Some df \<Rightarrow>
          (case integrate_technical_indicators indicators df of
             Inl e \<Rightarrow> None
           | Inr d \<Rightarrow> Some d))"

text \<open>
  The loop of \<open>main\<close>. The variable \<open>df_clean\<close> is assigned only when the file was
  processed and is read in every iteration: it keeps the frame of an earlier file, and
  reading it before any assignment raises, which ends the run. The result is the list of
  the files written and the error that ended the run, if any.
\<close>

fun main_indicators ::
  "(string \<Rightarrow> table \<Rightarrow> error + table) \<Rightarrow> table option \<Rightarrow> csv_file list \<Rightarrow> string
     \<Rightarrow> written \<times> error option" where
  "main_indicators indicators df_clean [] output_folder = ([], None)"
| "main_indicators indicators df_clean (f # fs) output_folder =
     (let df_clean =
            (case process_file_indicators indicators f of
               Some df_processed \<Rightarrow> Some (dropna df_processed)
             | None \<Rightarrow> df_clean)
      in case df_clean of
           None \<Rightarrow> ([], Some UnboundLocalError)
         | Some d \<Rightarrow>
             (let (ws, e) = main_indicators indicators (Some d) fs output_folder
              in ((path_join output_folder (basename (file_path f)), d) # ws, e)))"

section \<open>The transformation stage (data\_transformation.py)\<close>

definition pct_name :: "string \<Rightarrow> string" where
  "pct_name col = col @ ''_pct_change''"

text \<open>The loop of \<open>compute_percent_variation\<close> over the columns chosen before it.\<close>

fun add_pct_columns :: "table \<Rightarrow> string list \<Rightarrow> error + table" where
  "add_pct_columns df [] = Inr df"
| "add_pct_columns df (col # cols) =
     (case get_column df col of
        None \<Rightarrow> Inl KeyError
      | Some c \<Rightarrow>
          (case as_float c of
             Inl e \<Rightarrow> Inl e
           | Inr xs \<Rightarrow>
               add_pct_columns (set_column df (pct_name col) (FloatCol (pct_change xs))) cols))"

definition compute_percent_variation :: "table \<Rightarrow> string list \<Rightarrow> error + table" where
  "compute_percent_variation df exclude_columns =
     (let cols = filter (\<lambda>col. col \<notin> set exclude_columns) (columns df)
      in case add_pct_columns df cols of
           Inl e \<Rightarrow> Inl e
         | Inr df \<Rightarrow> Inr (dropna df))"

text \<open>
  The scaler is \<open>RobustScaler().fit_transform\<close> of scikit-learn, a parameter here: it
  receives the chosen columns as numbers and returns as many columns, or raises. The
  assignment \<open>df[columns] = ...\<close> stores the returned columns under the chosen names.
\<close>

fun those_floats :: "column list \<Rightarrow> error + fl list list" where
  "those_floats [] = Inr []"
| "those_floats (c # cs) =
     (case as_float c of
        Inl e \<Rightarrow> Inl ValueError
      | Inr xs \<Rightarrow> (case those_floats cs of Inl e \<Rightarrow> Inl e | Inr xss \<Rightarrow> Inr (xs # xss)))"

fun assign_columns :: "table \<Rightarrow> (string \<times> fl list) list \<Rightarrow> table" where
  "assign_columns df [] = df"
| "assign_columns df ((name, xs) # rest) = assign_columns (set_column df name (FloatCol xs)) rest"

definition robust_scaling ::
  "(fl list list \<Rightarrow> error + fl list list) \<Rightarrow> table \<Rightarrow> string list \<Rightarrow> error + table" where
  "robust_scaling scaler df exclude_columns =
     (let cols = filter (\<lambda>col. col \<notin> set exclude_columns) (columns df)
      in case those_floats (map (\<lambda>col. the (get_column df col)) cols) of
           Inl e \<Rightarrow> Inl e
         | Inr data \<Rightarrow>
             (case scaler data of
                Inl e \<Rightarrow> Inl e
              | Inr scaled \<Rightarrow>
                  if length scaled = length cols then Inr (assign_columns df (zip cols scaled))
                  else Inl ValueError))"

definition exclude_columns_pct :: "string list" where
  "exclude_columns_pct = [''Datetime'', ''Date'', ''Anomaly'', ''Volume'']"

definition exclude_columns_scaler :: "string list" where
  "exclude_columns_scaler = [''Datetime'', ''Date'', ''Anomaly'']"

text \<open>
  \<open>process_file\<close> of the transformation script. \<open>to_datetime\<close> is \<open>pd.to_datetime\<close>, a
  parameter. Every exception is caught and no file is written then; a frame with neither
  time column is skipped. The result is the file written, if any.
\<close>

definition transform ::
  "(fl list list \<Rightarrow> error + fl list list) \<Rightarrow> table \<Rightarrow> error + table" where
  "transform scaler df =
     (case compute_percent_variation df exclude_columns_pct of
        Inl e \<Rightarrow> Inl e
      | Inr df \<Rightarrow> robust_scaling scaler df exclude_columns_scaler)"

definition convert_time_column ::
  "(column \<Rightarrow> error + column) \<Rightarrow> table \<Rightarrow> string \<Rightarrow> error + table" where
  "convert_time_column to_datetime df name =
     (case get_column df name of
        None \<Rightarrow> Inl KeyError
      | Some c \<Rightarrow>
          (case to_datetime c of Inl e \<Rightarrow> Inl e | Inr d \<Rightarrow> Inr (set_column df name d)))"

definition process_file_transformation ::
  "(column \<Rightarrow> error + column) \<Rightarrow> (fl list list \<Rightarrow> error + fl list list) \<Rightarrow>
     csv_file \<Rightarrow> string \<Rightarrow> (string \<times> table) option" where
  "process_file_transformation to_datetime scaler f output_folder =
     (case content f of
        None \<Rightarrow> None
      | Some df \<Rightarrow>
          (let converted =
                 (if ''Datetime'' \<in> set (columns df)
                  then Some (convert_time_column to_datetime df ''Datetime'')
                  else if ''Date'' \<in> set (columns df)
                  then Some (convert_time_column to_datetime df ''Date'')
                  else None)
           in case converted of
                None \<Rightarrow> None
              | Some (Inl e) \<Rightarrow> None
              | Some (Inr df) \<Rightarrow>
                  (case transform scaler df of
                     Inl e \<Rightarrow> None
                   | Inr df_robust_scaled \<Rightarrow>
                       (let base_filename =
                              takeWhile (\<lambda>c. c \<noteq> CHR ''.'') (basename (file_path f))
                        in Some (path_join output_folder (base_filename @ ''_robust_scaled.csv''),
                                 df_robust_scaled)))))"

text \<open>The loop of \<open>main\<close>: paths that contain \<open>full_data\<close> are passed over.\<close>

fun main_transformation ::
  "(column \<Rightarrow> error + column) \<Rightarrow> (fl list list \<Rightarrow> error + fl list list) \<Rightarrow>
     csv_file list \<Rightarrow> string \<Rightarrow> written" where
  "main_transformation to_datetime scaler [] output_folder = []"
| "main_transformation to_datetime scaler (f # fs) output_folder =
     (if contains ''full_data'' (file_path f)
      then main_transformation to_datetime scaler fs output_folder
      else (case process_file_transformation to_datetime scaler f output_folder of
              None \<Rightarrow> main_transformation to_datetime scaler fs output_folder
            | Some w \<Rightarrow> w # main_transformation to_datetime scaler fs output_folder))"

section \<open>A model of the robust scaler\<close>

text \<open>
  The documented behaviour of \<open>RobustScaler\<close> with its defaults, on exact numbers: every
  column is centred on its median and divided by its interquartile range (1 when the range
  is zero), the quantiles being interpolated linearly between the sorted values. An empty
  input and a non-finite value raise \<open>ValueError\<close>. The stage itself takes the scaler as a
  parameter; this model instantiates it in the examples.
\<close>

definition quantile :: "real list \<Rightarrow> real \<Rightarrow> real" where
  "quantile xs q =
     (let s = sort xs;
          pos = q * real (length s - 1);
          lo = nat \<lfloor>pos\<rfloor>;
          hi = min (lo + 1) (length s - 1)
      in s ! lo + (pos - real lo) * (s ! hi - s ! lo))"

definition robust_scale_column :: "real list \<Rightarrow> real list" where
  "robust_scale_column xs =
     (let center = quantile xs (1 / 2);
          iqr = quantile xs (3 / 4) - quantile xs (1 / 4);
          scale = (if iqr = 0 then 1 else iqr)
      in map (\<lambda>x. (x - center) / scale) xs)"

fun finite_values :: "fl list \<Rightarrow> real list option" where
  "finite_values [] = Some []"
| "finite_values (Fin x # xs) = map_option (\<lambda>ys. x # ys) (finite_values xs)"
| "finite_values (_ # xs) = None"

fun scale_columns :: "fl list list \<Rightarrow> error + fl list list" where
  "scale_columns [] = Inr []"
| "scale_columns (c # cs) =
     (case finite_values c of
        None \<Rightarrow> Inl ValueError
      | Some xs \<Rightarrow>
          (case scale_columns cs of
             Inl e \<Rightarrow> Inl e
           | Inr rest \<Rightarrow> Inr (map Fin (robust_scale_column xs) # rest)))"

definition robust_scaler :: "fl list list \<Rightarrow> error + fl list list" where
  "robust_scaler data =
     (if data = [] \<or> hd data = [] then Inl ValueError else scale_columns data)"

section \<open>Example inputs\<close>

text \<open>An indicator computation that adds nothing, for the examples.\<close>

definition no_indicators :: "string \<Rightarrow> table \<Rightarrow> error + table" where
  "no_indicators time_column df = Inr df"

text \<open>A file whose frame has a \<open>Close\<close> column and neither time column.\<close>

definition untimed_file :: csv_file where
  "untimed_file =
     \<lparr>file_path = ''data/raw/btc.csv'',
      content = Some [(''Close'', FloatCol [Fin 100, Fin 105])]\<rparr>"

text \<open>A frame with a time column, a price, a volume and the label.\<close>

definition sample_frame :: table where
  "sample_frame =
     [(''Datetime'', StrCol [Some ''d1'', Some ''d2'', Some ''d3'']),
      (''Close'', FloatCol [Fin 100, Fin 110, Fin 121]),
      (''Volume'', FloatCol [Fin 5, Fin 0, Fin 7]),
      (''Anomaly'', IntCol [0, 1, 0])]"

section \<open>Properties of the series operations\<close>

lemma pv_ex: "calculate_price_variation [Fin 100, Fin 100, Fin 105, Fin 100, Fin 95, Fin 95] = [NaN, Fin 0, Fin 5, Fin (-100/21), Fin (-5), Fin 0]"
  by (simp add: calculate_price_variation_def pct_change_def ffill_def shift_down_def)

lemma lab_ex: "label_anomalies [NaN, Fin 0, Fin 5, Fin (-100/21), Fin (-5), Fin 0] (Fin 1) = [0,1,2,2,0,0]"
  by (simp add: label_anomalies_def shift_up_def loc_mask_assign_def)

lemma idx_ex: "anomaly_indices [0,1,2,2,0,0] = [1,2,3]"
  by (simp add: anomaly_indices_def upt_rec)

lemma shift_ex1: "shift_step 1 [0,1,2,2,0,0] 1 = [1,1,2,2,0,0]"
  by (simp add: shift_step_def loc_slice_assign_def upt_rec)
lemma shift_ex2: "shift_step 1 [1,1,2,2,0,0] 2 = [1,2,2,2,0,0]"
  by (simp add: shift_step_def loc_slice_assign_def upt_rec)
lemma shift_ex3: "shift_step 1 [1,2,2,2,0,0] 3 = [1,2,2,2,0,0]"
  by (simp add: shift_step_def loc_slice_assign_def upt_rec)

lemma sh_ex: "apply_curve_shifting [0,1,2,2,0,0] 1 = [1,2,2,2,0,0]"
  by (simp add: apply_curve_shifting_def idx_ex shift_step_def loc_slice_assign_def upt_rec)

lemma h_ex: "handle_interleaved_anomalies [1,2,2,2,0,0] = [0,0,2,2,0,0]"
  by (simp add: handle_interleaved_anomalies_def resolve_step_def upt_rec)

lemma length_loc_slice_assign [simp]: "length (loc_slice_assign col a b v) = length col"
  by (simp add: loc_slice_assign_def)

lemma nth_loc_slice_assign:
  "k < length col \<Longrightarrow>
   loc_slice_assign col a b v ! k = (if a \<le> int k \<and> int k \<le> b then v else col ! k)"
  by (simp add: loc_slice_assign_def)

lemma length_shift_step [simp]: "length (shift_step s col idx) = length col"
  by (simp add: shift_step_def Let_def)

lemma nth_shift_step:
  "k < length col \<Longrightarrow>
   shift_step s col idx ! k =
     (if max 0 (int idx - s) \<le> int k \<and> k \<le> idx then col ! idx else col ! k)"
  by (simp add: shift_step_def Let_def nth_loc_slice_assign)

lemma length_foldl_shift_step [simp]:
  "length (foldl (shift_step s) col is) = length col"
  by (induction "is" arbitrary: col) simp_all

lemma shift_invariant:
  fixes P :: "nat \<Rightarrow> int \<Rightarrow> bool"
  assumes "sorted_wrt (<) is"
    and "\<forall>idx \<in> set is. idx < length orig"
    and "length st = length orig"
    and "\<forall>idx \<in> set is. \<forall>k. idx \<le> k \<and> k < length orig \<longrightarrow> st ! k = orig ! k"
    and "\<forall>k < length orig. P k (st ! k)"
    and step: "\<And>idx k. idx \<in> set is \<Longrightarrow> k \<le> idx \<Longrightarrow> max 0 (int idx - s) \<le> int k \<Longrightarrow> P k (orig ! idx)"
  shows "\<forall>k < length orig. P k (foldl (shift_step s) st is ! k)"
  using assms
proof (induction "is" arbitrary: st)
  case Nil
  then show ?case by simp
next
  case (Cons idx rest)
  let ?st' = "shift_step s st idx"
  have len: "length ?st' = length orig" using Cons.prems(3) by simp
  have idx_lt: "idx < length orig" using Cons.prems(2) by simp
  have lab: "st ! idx = orig ! idx" using Cons.prems(4) idx_lt by simp
  have untouched: "\<forall>i \<in> set rest. \<forall>k. i \<le> k \<and> k < length orig \<longrightarrow> ?st' ! k = orig ! k"
  proof (intro ballI allI impI)
    fix i k assume i: "i \<in> set rest" and k: "i \<le> k \<and> k < length orig"
    have "idx < i" using Cons.prems(1) i by simp
    then have "\<not> k \<le> idx" using k by simp
    moreover have "st ! k = orig ! k" using Cons.prems(4) i k by simp
    ultimately show "?st' ! k = orig ! k"
      using k Cons.prems(3) by (simp add: nth_shift_step)
  qed
  have P': "\<forall>k < length orig. P k (?st' ! k)"
  proof (intro allI impI)
    fix k assume k: "k < length orig"
    show "P k (?st' ! k)"
    proof (cases "max 0 (int idx - s) \<le> int k \<and> k \<le> idx")
      case True
      then have "?st' ! k = orig ! idx" using k Cons.prems(3) lab by (simp add: nth_shift_step)
      moreover have "P k (orig ! idx)" using Cons.prems(6)[of idx k] True by simp
      ultimately show ?thesis by simp
    next
      case False
      then have "?st' ! k = st ! k" using k Cons.prems(3) by (auto simp: nth_shift_step)
      then show ?thesis using Cons.prems(5) k by simp
    qed
  qed
  have "\<forall>k<length orig. P k (foldl (shift_step s) ?st' rest ! k)"
  proof (rule Cons.IH[OF _ _ len untouched P'])
    show "sorted_wrt (<) rest" using Cons.prems(1) by simp
    show "\<forall>idx\<in>set rest. idx < length orig" using Cons.prems(2) by simp
    show "\<And>i k. i \<in> set rest \<Longrightarrow> k \<le> i \<Longrightarrow> max 0 (int i - s) \<le> int k \<Longrightarrow> P k (orig ! i)"
      using Cons.prems(6) by simp
  qed
  then show ?case by simp
qed

lemma sorted_anomaly_indices: "sorted_wrt (<) (anomaly_indices col)"
  by (simp add: anomaly_indices_def sorted_wrt_filter)

lemma set_anomaly_indices: "set (anomaly_indices col) = {i. i < length col \<and> 0 < col ! i}"
  by (auto simp: anomaly_indices_def)

lemma apply_curve_shifting_invariant:
  fixes P :: "nat \<Rightarrow> int \<Rightarrow> bool"
  assumes "\<forall>k < length col. P k (col ! k)"
    and "\<And>idx k. idx < length col \<Longrightarrow> 0 < col ! idx \<Longrightarrow> k \<le> idx \<Longrightarrow>
           max 0 (int idx - s) \<le> int k \<Longrightarrow> P k (col ! idx)"
  shows "\<forall>k < length col. P k (apply_curve_shifting col s ! k)"
  unfolding apply_curve_shifting_def
  by (rule shift_invariant[OF sorted_anomaly_indices])
     (use assms in \<open>auto simp: set_anomaly_indices\<close>)

lemma resolve_step_conflict:
  "resolve_step col i = (if conflict col i then (col[i := 0])[i - 1 := 0] else col)"
  by (simp add: resolve_step_def conflict_def)

lemma length_resolve_step [simp]: "length (resolve_step col i) = length col"
  by (simp add: resolve_step_def)

lemma length_foldl_resolve_step [simp]: "length (foldl resolve_step col is) = length col"
  by (induction "is" arbitrary: col) simp_all

lemma resolve_step_nth_other:
  "k \<noteq> i \<Longrightarrow> k \<noteq> i - 1 \<Longrightarrow> resolve_step col i ! k = col ! k"
  by (simp add: resolve_step_def)

lemma resolve_step_nth_cases:
  "k < length col \<Longrightarrow> resolve_step col i ! k = 0 \<or> resolve_step col i ! k = col ! k"
  by (cases "k = i - 1"; cases "k = i") (simp_all add: resolve_step_def)

lemma resolve_step_triggered:
  "conflict col i \<Longrightarrow> 0 < i \<Longrightarrow> i < length col \<Longrightarrow>
   resolve_step col i ! i = 0 \<and> resolve_step col i ! (i - 1) = 0"
  by (simp add: resolve_step_conflict nth_list_update)

lemma resolve_step_idle: "\<not> conflict col i \<Longrightarrow> resolve_step col i = col"
  by (simp add: resolve_step_conflict)

lemma foldl_resolve_nth_cases:
  "k < length col \<Longrightarrow>
   foldl resolve_step col is ! k = 0 \<or> foldl resolve_step col is ! k = col ! k"
proof (induction "is" arbitrary: col)
  case Nil
  then show ?case by simp
next
  case (Cons i rest)
  have "k < length (resolve_step col i)" using Cons.prems by simp
  from Cons.IH[OF this] resolve_step_nth_cases[OF Cons.prems, of i]
  show ?case by auto
qed

lemma foldl_resolve_zero:
  "k < length col \<Longrightarrow> col ! k = 0 \<Longrightarrow> foldl resolve_step col is ! k = 0"
  using foldl_resolve_nth_cases[of k col "is"] by auto

lemma foldl_resolve_untouched:
  "\<forall>i \<in> set is. k \<noteq> i \<and> k \<noteq> i - 1 \<Longrightarrow> foldl resolve_step col is ! k = col ! k"
  by (induction "is" arbitrary: col) (simp_all add: resolve_step_nth_other)

lemma foldl_resolve_idle:
  "\<forall>i \<in> set is. \<not> conflict col i \<Longrightarrow> foldl resolve_step col is = col"
  by (induction "is") (simp_all add: resolve_step_idle)

lemma upt_split3:
  "a \<le> i \<Longrightarrow> i < n \<Longrightarrow> [a..<n] = [a..<i] @ i # [Suc i..<n]"
proof -
  assume a: "a \<le> i" and b: "i < n"
  have "[a..<n] = [a..<i] @ [i..<n]"
    using upt_add_eq_append[OF a, of "n - i"] b by simp
  then show ?thesis using b by (simp add: upt_conv_Cons)
qed

lemma conflict_resolve_step_mono:
  assumes "k < length col" "0 < k" "conflict (resolve_step col i) k"
  shows "conflict col k"
proof -
  have a: "resolve_step col i ! k = col ! k"
    using resolve_step_nth_cases[of k col i] assms by (auto simp: conflict_def)
  have "k - 1 < length col" using assms by simp
  then have b: "resolve_step col i ! (k - 1) = col ! (k - 1)"
    using resolve_step_nth_cases[of "k - 1" col i] assms by (auto simp: conflict_def)
  show ?thesis using assms(3) a b by (simp add: conflict_def)
qed

lemma no_conflict_after_step:
  assumes "0 < i" "i < length col"
  shows "\<not> conflict (resolve_step col i) i"
proof (cases "conflict col i")
  case True
  then show ?thesis using resolve_step_triggered[OF True assms] by (simp add: conflict_def)
next
  case False
  then show ?thesis by (simp add: resolve_step_idle)
qed

lemma scan_prefix_resolved:
  "m \<le> length col \<Longrightarrow> 0 < k \<Longrightarrow> k < m \<Longrightarrow> \<not> conflict (foldl resolve_step col [1..<m]) k"
proof (induction m)
  case 0
  then show ?case by simp
next
  case (Suc m)
  show ?case
  proof (cases "m = 0")
    case True
    then show ?thesis using Suc.prems by simp
  next
    case False
    let ?st = "foldl resolve_step col [1..<m]"
    have eq: "foldl resolve_step col [1..<Suc m] = resolve_step ?st m"
      using False by simp
    have lenst: "length ?st = length col" by simp
    show ?thesis
    proof (cases "k = m")
      case True
      then show ?thesis
        using no_conflict_after_step[of m ?st] Suc.prems False by (simp add: eq)
    next
      case neq: False
      then have "k < m" using Suc.prems by simp
      then have "\<not> conflict ?st k" using Suc.IH Suc.prems by simp
      moreover have "k < length ?st" using Suc.prems by simp
      ultimately show ?thesis
        using conflict_resolve_step_mono[of k ?st m] Suc.prems(2) by (auto simp: eq)
    qed
  qed
qed

lemma handle_resolved:
  "0 < k \<Longrightarrow> k < length col \<Longrightarrow> \<not> conflict (handle_interleaved_anomalies col) k"
  unfolding handle_interleaved_anomalies_def by (rule scan_prefix_resolved) simp_all

lemma handle_fixed_point:
  "\<forall>k. 0 < k \<and> k < length col \<longrightarrow> \<not> conflict col k \<Longrightarrow> handle_interleaved_anomalies col = col"
  unfolding handle_interleaved_anomalies_def by (rule foldl_resolve_idle) simp

lemma handle_split:
  "0 < i \<Longrightarrow> i < length col \<Longrightarrow>
   handle_interleaved_anomalies col =
     foldl resolve_step (resolve_step (foldl resolve_step col [1..<i]) i) [Suc i..<length col]"
  unfolding handle_interleaved_anomalies_def
  using upt_split3[of 1 i "length col"] by simp

section \<open>The claims about the labelling steps\<close>

lemma length_shift_up [simp]: "length (shift_up xs) = length xs"
  by (cases xs) (simp_all add: shift_up_def)

lemma nth_shift_up:
  "i < length xs \<Longrightarrow> shift_up xs ! i = (if i + 1 < length xs then xs ! (i + 1) else NaN)"
  by (cases xs) (auto simp: shift_up_def nth_append nth_tl)

lemma length_label_anomalies [simp]: "length (label_anomalies pv t) = length pv"
  by (simp add: label_anomalies_def loc_mask_assign_def)

lemma nth_label_anomalies:
  "i < length pv \<Longrightarrow>
   label_anomalies pv t ! i =
     (if fless (shift_up pv ! i) (fneg t) then 2 else if fless t (shift_up pv ! i) then 1 else 0)"
  by (simp add: label_anomalies_def loc_mask_assign_def)

lemma fless_NaN_right [simp]: "fless a NaN = False"
  by (cases a) simp_all

lemma fless_threshold_exclusive:
  "fless (Fin 0) t \<Longrightarrow> fless t v \<Longrightarrow> \<not> fless v (fneg t)"
  by (cases t; cases v) auto

text \<open>
  Claim C4. For a threshold above 0, \<open>label_anomalies\<close> gives every bar \<open>i\<close> that
  has a next bar the label 1 (Upward) when \<open>price_variation[i + 1] > threshold\<close>, the label 2
  (Downward) when \<open>price_variation[i + 1] < - threshold\<close> and the label 0 (Stable) otherwise;
  the last bar is Stable.
\<close>

theorem label_anomalies_classification:
  assumes "fless (Fin 0) threshold"
  shows "length (label_anomalies pv threshold) = length pv \<and>
         (\<forall>i. i + 1 < length pv \<longrightarrow>
            label_anomalies pv threshold ! i =
              (if fless threshold (pv ! (i + 1)) then 1
               else if fless (pv ! (i + 1)) (fneg threshold) then 2 else 0)) \<and>
         (pv \<noteq> [] \<longrightarrow> label_anomalies pv threshold ! (length pv - 1) = 0)"
proof (intro conjI allI impI)
  show "length (label_anomalies pv threshold) = length pv" by simp
next
  fix i assume i: "i + 1 < length pv"
  then have "shift_up pv ! i = pv ! (i + 1)" by (simp add: nth_shift_up)
  then show "label_anomalies pv threshold ! i =
              (if fless threshold (pv ! (i + 1)) then 1
               else if fless (pv ! (i + 1)) (fneg threshold) then 2 else 0)"
    using i fless_threshold_exclusive[OF assms, of "pv ! (i + 1)"]
    by (auto simp: nth_label_anomalies)
next
  assume "pv \<noteq> []"
  then obtain n where n: "length pv = Suc n" by (cases pv) simp_all
  then have "shift_up pv ! n = NaN" by (simp add: nth_shift_up)
  then show "label_anomalies pv threshold ! (length pv - 1) = 0"
    using n by (simp add: nth_label_anomalies)
qed

lemma ffill_from_populated: "NaN \<notin> set xs \<Longrightarrow> ffill_from p xs = xs"
  by (induction xs arbitrary: p) auto

lemma length_shift_down [simp]: "length (shift_down xs) = length xs"
  by (cases xs) (simp_all add: shift_down_def)

lemma nth_shift_down:
  "i < length xs \<Longrightarrow> shift_down xs ! i = (if i = 0 then NaN else xs ! (i - 1))"
  by (cases xs rule: rev_cases; cases i) (auto simp: shift_down_def nth_append)

lemma fdiv_NaN_right [simp]: "fdiv a NaN = NaN"
  by (cases a) simp_all

lemma length_ffill_from [simp]: "length (ffill_from p xs) = length xs"
  by (induction xs arbitrary: p) auto

lemma length_calculate_price_variation [simp]:
  "length (calculate_price_variation close) = length close"
  by (simp add: calculate_price_variation_def pct_change_def ffill_def Let_def)

text \<open>
  Claim C5. For a close column with no missing value, \<open>calculate_price_variation\<close> gives
  \<open>(close[i] / close[i - 1] - 1) * 100\<close> for every \<open>i > 0\<close>, and NaN (not zero) for
  the first bar.
\<close>

theorem calculate_price_variation_correct:
  assumes "NaN \<notin> set close"
  shows "length (calculate_price_variation close) = length close \<and>
         (\<forall>i. 0 < i \<and> i < length close \<longrightarrow>
            calculate_price_variation close ! i =
              fmul (fsub (fdiv (close ! i) (close ! (i - 1))) (Fin 1)) (Fin 100)) \<and>
         (close \<noteq> [] \<longrightarrow> calculate_price_variation close ! 0 = NaN)"
proof -
  have ff: "ffill close = close" using assms by (simp add: ffill_def ffill_from_populated)
  have nth: "\<And>i. i < length close \<Longrightarrow>
    calculate_price_variation close ! i =
      fmul (fsub (fdiv (close ! i) (shift_down close ! i)) (Fin 1)) (Fin 100)"
    by (simp add: calculate_price_variation_def pct_change_def ff)
  show ?thesis
  proof (intro conjI allI impI)
    show "length (calculate_price_variation close) = length close" by simp
  next
    fix i assume "0 < i \<and> i < length close"
    then show "calculate_price_variation close ! i =
              fmul (fsub (fdiv (close ! i) (close ! (i - 1))) (Fin 1)) (Fin 100)"
      by (simp add: nth nth_shift_down)
  next
    assume "close \<noteq> []"
    then have "0 < length close" by simp
    then show "calculate_price_variation close ! 0 = NaN"
      by (simp add: nth nth_shift_down)
  qed
qed

text \<open>
  Claim C10. \<open>apply_curve_shifting\<close> keeps the length of the column, leaves every
  non-stable row non-stable, writes only anomaly labels (a row whose label changed holds a
  label above 0), and returns the column unchanged when \<open>shift_hours\<close> is zero or
  negative.
\<close>

theorem apply_curve_shifting_keeps_anomalies:
  "length (apply_curve_shifting col s) = length col \<and>
   (\<forall>i < length col. col ! i \<noteq> 0 \<longrightarrow> apply_curve_shifting col s ! i \<noteq> 0) \<and>
   (\<forall>i < length col. apply_curve_shifting col s ! i \<noteq> col ! i \<longrightarrow>
       0 < apply_curve_shifting col s ! i) \<and>
   (s \<le> 0 \<longrightarrow> apply_curve_shifting col s = col)"
proof (intro conjI impI)
  show len: "length (apply_curve_shifting col s) = length col"
    by (simp add: apply_curve_shifting_def)
  have "\<forall>k < length col. (col ! k \<noteq> 0 \<longrightarrow> apply_curve_shifting col s ! k \<noteq> 0) \<and>
          (apply_curve_shifting col s ! k \<noteq> col ! k \<longrightarrow> 0 < apply_curve_shifting col s ! k)"
    by (rule apply_curve_shifting_invariant
          [where P = "\<lambda>k v. (col ! k \<noteq> 0 \<longrightarrow> v \<noteq> 0) \<and> (v \<noteq> col ! k \<longrightarrow> 0 < v)"]) auto
  then show "\<forall>i < length col. col ! i \<noteq> 0 \<longrightarrow> apply_curve_shifting col s ! i \<noteq> 0"
    and "\<forall>i < length col. apply_curve_shifting col s ! i \<noteq> col ! i \<longrightarrow>
       0 < apply_curve_shifting col s ! i"
    by blast+
  assume s: "s \<le> 0"
  have "\<forall>k < length col. apply_curve_shifting col s ! k = col ! k"
  proof (rule apply_curve_shifting_invariant [where P = "\<lambda>k v. v = col ! k"])
    show "\<forall>k<length col. col ! k = col ! k" by simp
  next
    fix idx k assume "k \<le> idx" "max 0 (int idx - s) \<le> int k"
    then have "k = idx" using s by auto
    then show "col ! idx = col ! k" by simp
  qed
  then show "apply_curve_shifting col s = col"
    using len by (simp add: nth_equalityI)
qed

text \<open>
  Claim C3. With \<open>shift_hours \<ge> 0\<close>, every row \<open>i\<close> that is non-stable after
  \<open>apply_curve_shifting\<close> has a row \<open>j \<ge> i\<close> with \<open>j - i \<le> shift_hours\<close> that
  carried that label before the shift; and the window written for an anomaly at row
  \<open>idx\<close> is the closed range from \<open>max 0 (idx - shift_hours)\<close> to \<open>idx\<close>.
\<close>

theorem shift_window_bound:
  assumes "0 \<le> s"
  shows "(\<forall>i < length col. apply_curve_shifting col s ! i \<noteq> 0 \<longrightarrow>
           (\<exists>j. i \<le> j \<and> j < length col \<and> int j - int i \<le> s \<and>
                col ! j = apply_curve_shifting col s ! i)) \<and>
         (\<forall>idx < length col. \<forall>k < length col.
            shift_step s col idx ! k =
              (if max 0 (int idx - s) \<le> int k \<and> int k \<le> int idx then col ! idx else col ! k))"
proof (intro conjI)
  have "\<forall>k < length col. \<exists>j. k \<le> j \<and> j < length col \<and> int j - int k \<le> s \<and>
                col ! j = apply_curve_shifting col s ! k"
  proof (rule apply_curve_shifting_invariant
      [where P = "\<lambda>k v. \<exists>j. k \<le> j \<and> j < length col \<and> int j - int k \<le> s \<and> col ! j = v"])
    show "\<forall>k<length col. \<exists>j\<ge>k. j < length col \<and> int j - int k \<le> s \<and> col ! j = col ! k"
      using assms by auto
  next
    fix idx k assume "idx < length col" "k \<le> idx" "max 0 (int idx - s) \<le> int k"
    then have "k \<le> idx \<and> idx < length col \<and> int idx - int k \<le> s \<and> col ! idx = col ! idx"
      by auto
    then show "\<exists>j\<ge>k. j < length col \<and> int j - int k \<le> s \<and> col ! j = col ! idx"
      by blast
  qed
  then show "\<forall>i < length col. apply_curve_shifting col s ! i \<noteq> 0 \<longrightarrow>
           (\<exists>j. i \<le> j \<and> j < length col \<and> int j - int i \<le> s \<and>
                col ! j = apply_curve_shifting col s ! i)"
    by blast
  show "\<forall>idx < length col. \<forall>k < length col.
            shift_step s col idx ! k =
              (if max 0 (int idx - s) \<le> int k \<and> int k \<le> int idx then col ! idx else col ! k)"
    by (simp add: nth_shift_step)
qed

text \<open>
  Claim C6. After \<open>handle_interleaved_anomalies\<close> no two adjacent rows hold different
  non-stable labels; and a pair that is in conflict when the pass reaches it has both rows
  Stable in the result.
\<close>

theorem adjacency_invariant:
  "(\<forall>i. 0 < i \<and> i < length col \<longrightarrow>
      \<not> (handle_interleaved_anomalies col ! i \<noteq> 0 \<and>
         handle_interleaved_anomalies col ! (i - 1) \<noteq> 0 \<and>
         handle_interleaved_anomalies col ! i \<noteq> handle_interleaved_anomalies col ! (i - 1))) \<and>
   (\<forall>i. 0 < i \<and> i < length col \<and> conflict (foldl resolve_step col [1..<i]) i \<longrightarrow>
      handle_interleaved_anomalies col ! i = 0 \<and>
      handle_interleaved_anomalies col ! (i - 1) = 0)"
proof (intro conjI allI impI)
  fix i assume "0 < i \<and> i < length col"
  then show "\<not> (handle_interleaved_anomalies col ! i \<noteq> 0 \<and>
         handle_interleaved_anomalies col ! (i - 1) \<noteq> 0 \<and>
         handle_interleaved_anomalies col ! i \<noteq> handle_interleaved_anomalies col ! (i - 1))"
    using handle_resolved[of i col] by (simp add: conflict_def)
next
  fix i
  assume a: "0 < i \<and> i < length col \<and> conflict (foldl resolve_step col [1..<i]) i"
  let ?st = "foldl resolve_step col [1..<i]"
  have z: "resolve_step ?st i ! i = 0 \<and> resolve_step ?st i ! (i - 1) = 0"
    using resolve_step_triggered[of ?st i] a by simp
  have eq: "handle_interleaved_anomalies col =
     foldl resolve_step (resolve_step ?st i) [Suc i..<length col]"
    using handle_split a by simp
  show "handle_interleaved_anomalies col ! i = 0"
    unfolding eq using z a by (simp add: foldl_resolve_zero)
  have "i - 1 < length (resolve_step ?st i)" using a by auto
  then show "handle_interleaved_anomalies col ! (i - 1) = 0"
    unfolding eq using z by (simp add: foldl_resolve_zero)
qed

text \<open>
  Claim C7. Running \<open>handle_interleaved_anomalies\<close> on its own output changes
  nothing.
\<close>

theorem handle_interleaved_anomalies_idempotent:
  "handle_interleaved_anomalies (handle_interleaved_anomalies col) =
   handle_interleaved_anomalies col"
proof (rule handle_fixed_point, intro allI impI)
  fix k assume "0 < k \<and> k < length (handle_interleaved_anomalies col)"
  then have "0 < k" "k < length col" by (simp_all add: handle_interleaved_anomalies_def)
  then show "\<not> conflict (handle_interleaved_anomalies col) k" by (rule handle_resolved)
qed

lemma scan_prefix_untouched:
  "i \<le> k \<Longrightarrow> foldl resolve_step col [1..<i] ! k = col ! k"
  by (rule foldl_resolve_untouched) auto




text \<open>
  A chain in the input column is still there when the pass reaches it, provided the row
  before the chain does not hold a non-stable label different from the chain's first.
\<close>

lemma chain_reached_intact:
  assumes "0 < i" "i + 1 < length col"
    and "i = 1 \<or> col ! (i - 2) = 0 \<or> col ! (i - 2) = col ! (i - 1)"
  shows "foldl resolve_step col [1..<i] ! (i - 1) = col ! (i - 1) \<and>
         foldl resolve_step col [1..<i] ! i = col ! i \<and>
         foldl resolve_step col [1..<i] ! (i + 1) = col ! (i + 1)"
proof -
  have b: "foldl resolve_step col [1..<i] ! i = col ! i"
    and c: "foldl resolve_step col [1..<i] ! (i + 1) = col ! (i + 1)"
    by (rule scan_prefix_untouched, simp)+
  have a: "foldl resolve_step col [1..<i] ! (i - 1) = col ! (i - 1)"
  proof (cases "i = 1")
    case True
    then show ?thesis by simp
  next
    case False
    then obtain m where m: "i = Suc (Suc m)" using assms(1)
      by (metis One_nat_def Suc_pred gr0_implies_Suc less_Suc_eq_0_disj not_gr_zero old.nat.exhaust)
    let ?st = "foldl resolve_step col [1..<Suc m]"
    have "[1..<i] = [1..<Suc m] @ [Suc m]" unfolding m by (rule upt_Suc_append) simp
    then have eq: "foldl resolve_step col [1..<i] = resolve_step ?st (Suc m)"
      by (simp only: foldl_append foldl_Cons foldl_Nil)
    have cur: "?st ! Suc m = col ! Suc m" by (rule scan_prefix_untouched) simp
    have "m < length col" using assms(2) m by simp
    then have prev: "?st ! m = 0 \<or> ?st ! m = col ! m"
      by (rule foldl_resolve_nth_cases)
    have "col ! m = 0 \<or> col ! m = col ! Suc m" using assms(3) False m by simp
    then have "\<not> conflict ?st (Suc m)" using prev cur by (auto simp: conflict_def)
    then have "resolve_step ?st (Suc m) = ?st" by (rule resolve_step_idle)
    then have "foldl resolve_step col [1..<i] ! Suc m = col ! Suc m"
      using cur eq by simp
    then show ?thesis by (simp add: m)
  qed
  show ?thesis using a b c by simp
qed

text \<open>
  Claim C1, as amended. The worked scenario: close prices 100, 100, 105, 100, 95, 95,
  threshold 1.0, shift of 1. The price variation is undefined, 0, 5, -100/21 (-4.7619...),
  -5, 0. Bar \<open>i\<close> is classified from the variation of bar \<open>i + 1\<close>, so the
  classification is 0, 1, 2, 2, 0, 0. The anomaly positions 1, 2, 3 are shifted in
  ascending order: position 1 writes Upward on rows 0..1, position 2 writes Downward on
  rows 1..2 (over the Upward label of row 1), position 3 writes Downward on rows 2..3,
  which gives 1, 2, 2, 2, 0, 0. The resolver finds the conflicting pair of rows 0 and 1
  and sets both to Stable: the final column is 0, 0, 2, 2, 0, 0.
\<close>

theorem worked_scenario:
  "calculate_price_variation [Fin 100, Fin 100, Fin 105, Fin 100, Fin 95, Fin 95] =
     [NaN, Fin 0, Fin 5, Fin (- 100 / 21), Fin (- 5), Fin 0] \<and>
   label_anomalies [NaN, Fin 0, Fin 5, Fin (- 100 / 21), Fin (- 5), Fin 0] (Fin 1) =
     [0, 1, 2, 2, 0, 0] \<and>
   anomaly_indices [0, 1, 2, 2, 0, 0] = [1, 2, 3] \<and>
   shift_step 1 [0, 1, 2, 2, 0, 0] 1 = [1, 1, 2, 2, 0, 0] \<and>
   shift_step 1 [1, 1, 2, 2, 0, 0] 2 = [1, 2, 2, 2, 0, 0] \<and>
   shift_step 1 [1, 2, 2, 2, 0, 0] 3 = [1, 2, 2, 2, 0, 0] \<and>
   apply_curve_shifting [0, 1, 2, 2, 0, 0] 1 = [1, 2, 2, 2, 0, 0] \<and>
   handle_interleaved_anomalies [1, 2, 2, 2, 0, 0] = [0, 0, 2, 2, 0, 0] \<and>
   label_pipeline [Fin 100, Fin 100, Fin 105, Fin 100, Fin 95, Fin 95] (Fin 1) 1 =
     [0, 0, 2, 2, 0, 0]"
  using pv_ex lab_ex idx_ex shift_ex1 shift_ex2 shift_ex3 sh_ex h_ex
  by (simp only: label_pipeline_def simp_thms)

text \<open>
  Claim C1 as stated gives 2, 2, 2, 0, 0, 0 for the final column of the worked scenario;
  the labelling pipeline does not return it.
\<close>

theorem worked_scenario_counterexample:
  "label_pipeline [Fin 100, Fin 100, Fin 105, Fin 100, Fin 95, Fin 95] (Fin 1) 1 \<noteq>
     [2, 2, 2, 0, 0, 0]"
  using pv_ex lab_ex sh_ex h_ex by (simp add: label_pipeline_def)


text \<open>
  Witness for C3: the column 0, 0, 2 with a shift of 1.
\<close>

theorem shift_window_bound_witness:
  "(0::int) \<le> 1 \<and> (1::nat) < length [0, 0, 2 :: int] \<and>
   apply_curve_shifting [0, 0, 2] 1 ! 1 \<noteq> 0 \<and>
   (\<exists>j. 1 \<le> j \<and> j < length [0, 0, 2 :: int] \<and> int j - int 1 \<le> 1 \<and>
        [0, 0, 2] ! j = apply_curve_shifting [0, 0, 2] 1 ! 1) \<and>
   shift_step 1 [0, 0, 2] 2 ! 1 = 2 \<and> shift_step 1 [0, 0, 2] 2 ! 0 = 0"
proof -
  have h: "(0::int) \<le> 1" by simp
  have e: "apply_curve_shifting [0, 0, 2] 1 = [0, 2, 2]"
    by (simp add: apply_curve_shifting_def anomaly_indices_def shift_step_def
        loc_slice_assign_def upt_rec)
  note t = shift_window_bound[OF h, of "[0, 0, 2]"]
  have a: "\<exists>j. 1 \<le> j \<and> j < length [0, 0, 2 :: int] \<and> int j - int 1 \<le> 1 \<and>
        [0, 0, 2] ! j = apply_curve_shifting [0, 0, 2] 1 ! 1"
    by (rule t[THEN conjunct1, rule_format]) (simp_all add: e)
  have b: "shift_step 1 [0, 0, 2] 2 ! 1 = 2" "shift_step 1 [0, 0, 2] 2 ! 0 = 0"
    using t[THEN conjunct2, rule_format, of 2 1] t[THEN conjunct2, rule_format, of 2 0]
    by simp_all
  show ?thesis using a b by (simp add: e)
qed

text \<open>
  Witness for C4: threshold 1 on the variations NaN, 0, 5, -5, 0.
\<close>

theorem label_anomalies_classification_witness:
  "fless (Fin 0) (Fin 1) \<and>
   length (label_anomalies [NaN, Fin 0, Fin 5, Fin (- 5), Fin 0] (Fin 1)) = 5 \<and>
   label_anomalies [NaN, Fin 0, Fin 5, Fin (- 5), Fin 0] (Fin 1) ! 0 = 0 \<and>
   label_anomalies [NaN, Fin 0, Fin 5, Fin (- 5), Fin 0] (Fin 1) ! 1 = 1 \<and>
   label_anomalies [NaN, Fin 0, Fin 5, Fin (- 5), Fin 0] (Fin 1) ! 2 = 2 \<and>
   label_anomalies [NaN, Fin 0, Fin 5, Fin (- 5), Fin 0] (Fin 1) ! 4 = 0"
proof -
  have h: "fless (Fin 0) (Fin 1)" by simp
  note t = label_anomalies_classification[OF h, of "[NaN, Fin 0, Fin 5, Fin (- 5), Fin 0]"]
  have l: "length (label_anomalies [NaN, Fin 0, Fin 5, Fin (- 5), Fin 0] (Fin 1)) = 5"
    using t by simp
  have n: "label_anomalies [NaN, Fin 0, Fin 5, Fin (- 5), Fin 0] (Fin 1) ! 0 = 0"
    "label_anomalies [NaN, Fin 0, Fin 5, Fin (- 5), Fin 0] (Fin 1) ! 1 = 1"
    "label_anomalies [NaN, Fin 0, Fin 5, Fin (- 5), Fin 0] (Fin 1) ! 2 = 2"
    using t[THEN conjunct2, THEN conjunct1, rule_format, of 0]
      t[THEN conjunct2, THEN conjunct1, rule_format, of 1]
      t[THEN conjunct2, THEN conjunct1, rule_format, of 2]
    by simp_all
  have z: "label_anomalies [NaN, Fin 0, Fin 5, Fin (- 5), Fin 0] (Fin 1) ! 4 = 0"
    using t[THEN conjunct2, THEN conjunct2] by (simp add: eval_nat_numeral)
  show ?thesis using l n z by simp
qed

text \<open>
  Witness for C5: the closes 100, 105, 0, 7; the division by the zero close gives an
  infinity.
\<close>

theorem calculate_price_variation_correct_witness:
  "NaN \<notin> set [Fin 100, Fin 105, Fin 0, Fin 7] \<and>
   length (calculate_price_variation [Fin 100, Fin 105, Fin 0, Fin 7]) = 4 \<and>
   calculate_price_variation [Fin 100, Fin 105, Fin 0, Fin 7] ! 0 = NaN \<and>
   calculate_price_variation [Fin 100, Fin 105, Fin 0, Fin 7] ! 1 = Fin 5 \<and>
   calculate_price_variation [Fin 100, Fin 105, Fin 0, Fin 7] ! 2 = Fin (- 100) \<and>
   calculate_price_variation [Fin 100, Fin 105, Fin 0, Fin 7] ! 3 = PInf"
proof -
  have h: "NaN \<notin> set [Fin 100, Fin 105, Fin 0, Fin 7]" by simp
  note t = calculate_price_variation_correct[OF h]
  have n: "calculate_price_variation [Fin 100, Fin 105, Fin 0, Fin 7] ! 1 = Fin 5"
    "calculate_price_variation [Fin 100, Fin 105, Fin 0, Fin 7] ! 2 = Fin (- 100)"
    "calculate_price_variation [Fin 100, Fin 105, Fin 0, Fin 7] ! 3 = PInf"
    using t[THEN conjunct2, THEN conjunct1, rule_format, of 1]
      t[THEN conjunct2, THEN conjunct1, rule_format, of 2]
      t[THEN conjunct2, THEN conjunct1, rule_format, of 3]
    by simp_all
  have z: "calculate_price_variation [Fin 100, Fin 105, Fin 0, Fin 7] ! 0 = NaN"
    using t[THEN conjunct2, THEN conjunct2] by simp
  have l: "length (calculate_price_variation [Fin 100, Fin 105, Fin 0, Fin 7]) = 4"
    using t by simp
  show ?thesis using h l n z by simp
qed

text \<open>
  Witness for C6: the column 1, 2, 1.
\<close>

theorem adjacency_invariant_witness:
  "(0::nat) < 1 \<and> 1 < length [1, 2, 1 :: int] \<and>
   conflict (foldl resolve_step [1, 2, 1] [1..<1]) 1 \<and>
   handle_interleaved_anomalies [1, 2, 1] ! 1 = 0 \<and>
   handle_interleaved_anomalies [1, 2, 1] ! (1 - 1) = 0 \<and>
   \<not> (handle_interleaved_anomalies [1, 2, 1] ! 2 \<noteq> 0 \<and>
      handle_interleaved_anomalies [1, 2, 1] ! (2 - 1) \<noteq> 0 \<and>
      handle_interleaved_anomalies [1, 2, 1] ! 2 \<noteq>
        handle_interleaved_anomalies [1, 2, 1] ! (2 - 1))"
proof -
  note t = adjacency_invariant[of "[1, 2, 1]"]
  have c: "conflict (foldl resolve_step [1, 2, 1] [1..<1]) 1" by (simp add: conflict_def)
  have a: "handle_interleaved_anomalies [1, 2, 1] ! 1 = 0 \<and>
           handle_interleaved_anomalies [1, 2, 1] ! (1 - 1) = 0"
    by (rule t[THEN conjunct2, rule_format]) (simp add: conflict_def)
  have b: "\<not> (handle_interleaved_anomalies [1, 2, 1] ! 2 \<noteq> 0 \<and>
      handle_interleaved_anomalies [1, 2, 1] ! (2 - 1) \<noteq> 0 \<and>
      handle_interleaved_anomalies [1, 2, 1] ! 2 \<noteq>
        handle_interleaved_anomalies [1, 2, 1] ! (2 - 1))"
    by (rule t[THEN conjunct1, rule_format]) simp
  show ?thesis using a b c by simp
qed

text \<open>
  Witness for C10: the column 0, 0, 2, 0, 1 with shifts 2, 0 and -3; row 2 changes from
  Downward to Upward.
\<close>

theorem apply_curve_shifting_keeps_anomalies_witness:
  "(2::nat) < length [0, 0, 2, 0, 1 :: int] \<and> [0, 0, 2, 0, 1 :: int] ! 2 \<noteq> 0 \<and>
   apply_curve_shifting [0, 0, 2, 0, 1] 2 ! 2 \<noteq> 0 \<and>
   apply_curve_shifting [0, 0, 2, 0, 1] 2 ! 2 \<noteq> [0, 0, 2, 0, 1] ! 2 \<and>
   0 < apply_curve_shifting [0, 0, 2, 0, 1] 2 ! 2 \<and>
   (0::int) \<le> 0 \<and> apply_curve_shifting [0, 0, 2, 0, 1] 0 = [0, 0, 2, 0, 1] \<and>
   (- 3::int) \<le> 0 \<and> apply_curve_shifting [0, 0, 2, 0, 1] (- 3) = [0, 0, 2, 0, 1]"
proof -
  have e: "apply_curve_shifting [0, 0, 2, 0, 1] 2 = [2, 2, 1, 1, 1]"
    by (simp add: apply_curve_shifting_def anomaly_indices_def shift_step_def
        loc_slice_assign_def upt_rec)
  note t = apply_curve_shifting_keeps_anomalies[of "[0, 0, 2, 0, 1]" 2]
  have a: "apply_curve_shifting [0, 0, 2, 0, 1] 2 ! 2 \<noteq> 0"
    by (rule t[THEN conjunct2, THEN conjunct1, rule_format]) simp_all
  have b: "0 < apply_curve_shifting [0, 0, 2, 0, 1] 2 ! 2"
    by (rule t[THEN conjunct2, THEN conjunct2, THEN conjunct1, rule_format]) (simp_all add: e)
  have c: "apply_curve_shifting [0, 0, 2, 0, 1] 0 = [0, 0, 2, 0, 1]"
    using apply_curve_shifting_keeps_anomalies[of "[0, 0, 2, 0, 1]" 0] by simp
  have d: "apply_curve_shifting [0, 0, 2, 0, 1] (- 3) = [0, 0, 2, 0, 1]"
    using apply_curve_shifting_keeps_anomalies[of "[0, 0, 2, 0, 1]" "- 3"] by simp
  show ?thesis using a b c d by (simp add: e)
qed

section \<open>The stages on files without a time column\<close>

lemma main_transformation_append:
  "main_transformation td sc (xs @ ys) out =
     main_transformation td sc xs out @ main_transformation td sc ys out"
  by (induction xs) (auto split: option.splits)

lemma untimed_skipped:
  "content f = Some df \<Longrightarrow> \<not> has_time_column df \<Longrightarrow>
   process_file_transformation td sc f out = None"
  by (simp add: process_file_transformation_def has_time_column_def)

text \<open>
  Claim C8, as amended. For a file whose frame has neither a \<open>Datetime\<close> nor a
  \<open>Date\<close> column: the transformation stage writes nothing for it, and the rest of
  the batch is processed as if the file were not there; the indicator stage returns its
  frame without indicators and \<open>main\<close> writes that frame, the rows with a missing value
  dropped; the construction stage does not look at the time columns and, when the frame
  has a numeric \<open>Close\<close> column, writes the labelled frame.
\<close>

theorem missing_time_column_by_stage:
  assumes "content f = Some df" and "\<not> has_time_column df"
  shows "process_file_transformation to_datetime scaler f out = None \<and>
         main_transformation to_datetime scaler (fs1 @ f # fs2) out =
           main_transformation to_datetime scaler (fs1 @ fs2) out \<and>
         process_file_indicators indicators f = Some df \<and>
         main_indicators indicators df_clean [f] out =
           ([(path_join out (basename (file_path f)), dropna df)], None) \<and>
         (\<forall>c close. get_column df ''Close'' = Some c \<and> as_float c = Inr close \<longrightarrow>
            (\<exists>d. process_file_construction f threshold shift_hours = Some d \<and>
                 main_construction [f] out threshold shift_hours =
                   [(path_join out (basename (file_path f)), d)]))"
proof (intro conjI allI impI)
  show s: "process_file_transformation to_datetime scaler f out = None"
    using assms by (rule untimed_skipped)
  show "main_transformation to_datetime scaler (fs1 @ f # fs2) out =
           main_transformation to_datetime scaler (fs1 @ fs2) out"
    by (simp add: main_transformation_append s)
  show p: "process_file_indicators indicators f = Some df"
    using assms
    by (simp add: process_file_indicators_def integrate_technical_indicators_def
        has_time_column_def)
  show "main_indicators indicators df_clean [f] out =
           ([(path_join out (basename (file_path f)), dropna df)], None)"
    by (simp add: p)
next
  fix c close
  assume "get_column df ''Close'' = Some c \<and> as_float c = Inr close"
  then have "\<exists>d. process_file_construction f threshold shift_hours = Some d"
    using assms(1) by (simp add: process_file_construction_def Let_def)
  then obtain d where d: "process_file_construction f threshold shift_hours = Some d" ..
  then have "main_construction [f] out threshold shift_hours =
                   [(path_join out (basename (file_path f)), d)]" by simp
  with d show "\<exists>d. process_file_construction f threshold shift_hours = Some d \<and>
                 main_construction [f] out threshold shift_hours =
                   [(path_join out (basename (file_path f)), d)]" by blast
qed

lemma pv2: "calculate_price_variation [Fin 100, Fin 105] = [NaN, Fin 5]"
  by (simp add: calculate_price_variation_def pct_change_def ffill_def shift_down_def)

lemma lab2: "label_anomalies [NaN, Fin 5] (Fin 1) = [1, 0]"
  by (simp add: label_anomalies_def shift_up_def loc_mask_assign_def)

lemma sh2: "apply_curve_shifting [1, 0] 4 = [1, 0]"
  by (simp add: apply_curve_shifting_def anomaly_indices_def shift_step_def
      loc_slice_assign_def upt_rec)

lemma h2: "handle_interleaved_anomalies [1, 0] = [1, 0]"
  by (simp add: handle_interleaved_anomalies_def resolve_step_def upt_rec)

lemma untimed_path: "path_join ''out'' (basename (file_path untimed_file)) = ''out/btc.csv''"
  by (simp add: untimed_file_def path_join_def basename_def)

lemma untimed_processed:
  "process_file_construction untimed_file (Fin 1) 4 =
     Some [(''Close'', FloatCol [Fin 100, Fin 105]),
           (''Price_Variation'', FloatCol [NaN, Fin 5]),
           (''Anomaly'', IntCol [1, 0])]"
  by (simp add: untimed_file_def process_file_construction_def get_column_def
      pv2 lab2 sh2 h2)

lemma untimed_construction:
  "main_construction [untimed_file] ''out'' (Fin 1) 4 =
     [(''out/btc.csv'',
       [(''Close'', FloatCol [Fin 100, Fin 105]),
        (''Price_Variation'', FloatCol [NaN, Fin 5]),
        (''Anomaly'', IntCol [1, 0])])]"
  by (simp add: untimed_processed untimed_path)

lemma untimed_indicators:
  "main_indicators no_indicators None [untimed_file] ''out'' =
     ([(''out/btc.csv'', [(''Close'', FloatCol [Fin 100, Fin 105])])], None)"
  by (simp add: untimed_file_def process_file_indicators_def
      integrate_technical_indicators_def columns_def dropna_def complete_rows_def
      row_count_def select_def upt_rec path_join_def basename_def)

text \<open>
  Claim C8 as stated says that every stage writes no output for a file without time
  column. The file \<open>untimed_file\<close> has none; the construction stage and the indicator
  stage each write a file for it.
\<close>

theorem missing_time_column_counterexample:
  "\<not> has_time_column (the (content untimed_file)) \<and>
   main_construction [untimed_file] ''out'' (Fin 1) 4 =
     [(''out/btc.csv'',
       [(''Close'', FloatCol [Fin 100, Fin 105]),
        (''Price_Variation'', FloatCol [NaN, Fin 5]),
        (''Anomaly'', IntCol [1, 0])])] \<and>
   main_indicators no_indicators None [untimed_file] ''out'' =
     ([(''out/btc.csv'', [(''Close'', FloatCol [Fin 100, Fin 105])])], None)"
  using untimed_construction untimed_indicators
  by (simp add: untimed_file_def has_time_column_def columns_def)

text \<open>
  Witness for C8: \<open>untimed_file\<close>, after a file with a time column in the batch of
  the transformation stage.
\<close>

theorem missing_time_column_by_stage_witness:
  "content untimed_file = Some [(''Close'', FloatCol [Fin 100, Fin 105])] \<and>
   \<not> has_time_column [(''Close'', FloatCol [Fin 100, Fin 105])] \<and>
   process_file_transformation Inr robust_scaler untimed_file ''out'' = None \<and>
   main_transformation Inr robust_scaler
     ([\<lparr>file_path = ''a.csv'', content = Some sample_frame\<rparr>] @ untimed_file # []) ''out'' =
   main_transformation Inr robust_scaler
     ([\<lparr>file_path = ''a.csv'', content = Some sample_frame\<rparr>] @ []) ''out'' \<and>
   process_file_indicators no_indicators untimed_file =
     Some [(''Close'', FloatCol [Fin 100, Fin 105])] \<and>
   main_indicators no_indicators None [untimed_file] ''out'' =
     ([(path_join ''out'' (basename (file_path untimed_file)),
        dropna [(''Close'', FloatCol [Fin 100, Fin 105])])], None) \<and>
   get_column [(''Close'', FloatCol [Fin 100, Fin 105])] ''Close'' =
     Some (FloatCol [Fin 100, Fin 105]) \<and>
   as_float (FloatCol [Fin 100, Fin 105]) = Inr [Fin 100, Fin 105] \<and>
   (\<exists>d. process_file_construction untimed_file (Fin 1) 4 = Some d \<and>
        main_construction [untimed_file] ''out'' (Fin 1) 4 =
          [(path_join ''out'' (basename (file_path untimed_file)), d)])"
proof -
  have h: "content untimed_file = Some [(''Close'', FloatCol [Fin 100, Fin 105])]"
    "\<not> has_time_column [(''Close'', FloatCol [Fin 100, Fin 105])]"
    by (simp_all add: untimed_file_def has_time_column_def columns_def)
  have c: "get_column [(''Close'', FloatCol [Fin 100, Fin 105])] ''Close'' =
             Some (FloatCol [Fin 100, Fin 105]) \<and>
           as_float (FloatCol [Fin 100, Fin 105]) = Inr [Fin 100, Fin 105]"
    by (simp add: get_column_def)
  note t = missing_time_column_by_stage[OF h, of Inr robust_scaler "''out''"
      "[\<lparr>file_path = ''a.csv'', content = Some sample_frame\<rparr>]" "[]" no_indicators
      None "Fin 1" 4]
  have d: "\<exists>d. process_file_construction untimed_file (Fin 1) 4 = Some d \<and>
        main_construction [untimed_file] ''out'' (Fin 1) 4 =
          [(path_join ''out'' (basename (file_path untimed_file)), d)]"
    using t c by blast
  show ?thesis using h t c d by blast
qed

section \<open>The transformation stage\<close>

lemma columns_append [simp]: "columns (a @ b) = columns a @ columns b"
  by (simp add: columns_def)







lemma pct_name_inj [simp]: "pct_name a = pct_name b \<longleftrightarrow> a = b"
  by (simp add: pct_name_def)




lemma map_of_pct_columns_other:
  "n \<notin> pct_name ` set cols \<Longrightarrow> map_of (map (\<lambda>c. (pct_name c, g c)) cols) n = None"
  by (induction cols) auto

lemma columns_dropna [simp]: "columns (dropna df) = columns df"
  by (simp add: dropna_def columns_def case_prod_unfold)

lemma get_column_dropna:
  "get_column (dropna df) name = map_option (select_rows (complete_rows df)) (get_column df name)"
  by (simp add: dropna_def get_column_def map_of_map)



















end
